theory Spec2Isabelle
  imports Main "HOL-Library.Char_ord" "HOL-Library.List_Lexorder"
begin

section \<open>Scopes (transformers/virtualization/scoping.py)\<close>

text \<open>
  A \<open>Scope\<close> object holds a reference to its enclosing scope and four sets of
  variable names. The type parameter \<open>'r\<close> is the type of the reference held in
  \<open>parent\<close>: an address when scope objects live in the analyzer's store, or a
  \<open>ScopeRef\<close>, a reference that carries the object it points to. The parent is fixed
  by the constructor and never reassigned, so a scope with its chain of parents, read
  through its references, is a finite value of type \<open>ScopeRef Scope\<close>.
\<close>

datatype 'r Scope = Scope
  (parent: "'r option")
  (locals: "string set")
  (free: "string set")
  (nonlocals: "string set")
  (globals: "string set")
  (func_name: "string option")

datatype ScopeRef = Ref "ScopeRef Scope"

text \<open>\<open>Scope.__init__(parent, func_name)\<close>: all four sets start empty.\<close>

definition Scope_init :: "'r option \<Rightarrow> string option \<Rightarrow> 'r Scope" where
  "Scope_init p fn = Scope p {} {} {} {} fn"

fun add_free :: "'r Scope \<Rightarrow> string \<Rightarrow> 'r Scope" where
  "add_free (Scope p l f n g fn) var = Scope p l (insert var f) n g fn"

fun add_local :: "'r Scope \<Rightarrow> string \<Rightarrow> 'r Scope" where
  "add_local (Scope p l f n g fn) var =
     Scope p (insert var l) (if var \<in> f then f - {var} else f) n g fn"

fun add_nonlocal :: "'r Scope \<Rightarrow> string \<Rightarrow> 'r Scope" where
  "add_nonlocal (Scope p l f n g fn) var =
     Scope p (if var \<in> l then l - {var} else l) f (insert var n) g fn"

fun add_global :: "'r Scope \<Rightarrow> string \<Rightarrow> 'r Scope" where
  "add_global (Scope p l f n g fn) var =
     Scope p (if var \<in> l then l - {var} else l) f n (insert var g) fn"

definition is_local :: "'r Scope \<Rightarrow> string \<Rightarrow> bool" where
  "is_local s var = (var \<in> locals s)"

definition is_free :: "'r Scope \<Rightarrow> string \<Rightarrow> bool" where
  "is_free s var = (var \<in> free s)"

definition is_global :: "'r Scope \<Rightarrow> string \<Rightarrow> bool" where
  "is_global s var = (var \<in> globals s)"

definition is_nonlocal :: "'r Scope \<Rightarrow> string \<Rightarrow> bool" where
  "is_nonlocal s var = (var \<in> nonlocals s)"

text \<open>
  \<open>should_virtualize\<close> returns \<open>True\<close>, \<open>False\<close>, or whatever
  \<open>self.parent and self.parent.should_virtualize(var)\<close> evaluates to; with no parent
  that expression is Python's \<open>None\<close>. The result is modelled as \<open>bool option\<close>,
  \<open>None\<close> standing for Python's \<open>None\<close>; \<open>py_true\<close> is its truth value, the only
  thing callers look at.
\<close>

function should_virtualize :: "ScopeRef Scope \<Rightarrow> string \<Rightarrow> bool option" where
  "should_virtualize (Scope None l f n g fn) var =
     (if var \<in> l then Some True
      else if var \<in> n \<or> var \<in> f then None
      else Some False)"
| "should_virtualize (Scope (Some (Ref ps)) l f n g fn) var =
     (if var \<in> l then Some True
      else if var \<in> n \<or> var \<in> f then should_virtualize ps var
      else Some False)"
  by pat_completeness auto
termination
  by (relation "measure (\<lambda>(s, var). size_Scope size s)") auto

definition py_true :: "bool option \<Rightarrow> bool" where
  "py_true r = (r = Some True)"

definition locals_free_disjoint :: "'r Scope \<Rightarrow> bool" where
  "locals_free_disjoint s = (locals s \<inter> free s = {})"

section \<open>Python values and the default overload (overloads/py\_defaults.py)\<close>

datatype error =
    PyctUnboundLocalError string
  | AssertionError
  | ValueError string
  | AttributeError string
  | NotImplementedError string
  | KeyError string
  | IndexError

type_synonym addr = nat

text \<open>
  The values the default overload inspects: ordinary host values, instances of
  \<open>Undefined\<close> (carrying their \<open>name\<close>) and references to \<open>Variable\<close> objects.
\<close>

datatype pyval =
    PyNone
  | PyBool bool
  | PyInt int
  | PyStr string
  | PyTuple "pyval list"
  | PyList "pyval list"
  | UndefinedObj string
  | VariableRef addr

text \<open>A \<open>Variable\<close> object has two mutable attributes.\<close>

record Variable =
  val :: pyval
  name :: string

text \<open>
  The store of \<open>Variable\<close> objects: the object at each address, and the next
  address the constructor hands out.
\<close>

record var_store =
  cells :: "addr \<Rightarrow> Variable"
  next_addr :: addr

text \<open>Truth value of a host value, as \<open>if x:\<close> and \<open>not x\<close> test it.\<close>

fun truthy :: "pyval \<Rightarrow> bool" where
  "truthy PyNone = False"
| "truthy (PyBool b) = b"
| "truthy (PyInt i) = (i \<noteq> 0)"
| "truthy (PyStr s) = (s \<noteq> [])"
| "truthy (PyTuple vs) = (vs \<noteq> [])"
| "truthy (PyList vs) = (vs \<noteq> [])"
| "truthy (UndefinedObj n) = True"
| "truthy (VariableRef a) = True"

text \<open>
  A zero-argument callable: it runs on a state, may change it, and either returns a
  value or raises.
\<close>

type_synonym 's thunk = "'s \<Rightarrow> (error + pyval) \<times> 's"

text \<open>The loop \<open>for op in operands: if not op(): return False\<close> of \<open>and_\<close>.\<close>

fun and_loop :: "'s thunk list \<Rightarrow> 's \<Rightarrow> (error + pyval) \<times> 's" where
  "and_loop [] s = (Inr (PyBool True), s)"
| "and_loop (op # operands) s =
     (case op s of
        (Inl e, s') \<Rightarrow> (Inl e, s')
      | (Inr v, s') \<Rightarrow>
          if \<not> truthy v then (Inr (PyBool False), s') else and_loop operands s')"

definition and_overload :: "pyval \<Rightarrow> 's thunk list \<Rightarrow> 's \<Rightarrow> (error + pyval) \<times> 's" where
  "and_overload x operands s =
     (if truthy x then and_loop operands s else (Inr (PyBool False), s))"

fun or_loop :: "'s thunk list \<Rightarrow> 's \<Rightarrow> (error + pyval) \<times> 's" where
  "or_loop [] s = (Inr (PyBool False), s)"
| "or_loop (op # operands) s =
     (case op s of
        (Inl e, s') \<Rightarrow> (Inl e, s')
      | (Inr v, s') \<Rightarrow>
          if truthy v then (Inr (PyBool True), s') else or_loop operands s')"

definition or_overload :: "pyval \<Rightarrow> 's thunk list \<Rightarrow> 's \<Rightarrow> (error + pyval) \<times> 's" where
  "or_overload x operands s =
     (if \<not> truthy x then or_loop operands s else (Inr (PyBool True), s))"

definition not_overload :: "pyval \<Rightarrow> pyval" where
  "not_overload x = PyBool (\<not> truthy x)"

definition is_undefined :: "pyval \<Rightarrow> bool" where
  "is_undefined v = (case v of UndefinedObj n \<Rightarrow> True | _ \<Rightarrow> False)"

text \<open>\<open>init(name)\<close> builds \<open>Variable(Undefined(name), name)\<close>, a new object.\<close>

definition init :: "string \<Rightarrow> var_store \<Rightarrow> pyval \<times> var_store" where
  "init nm h =
     (VariableRef (next_addr h),
      h\<lparr>cells := (cells h)(next_addr h := \<lparr>val = UndefinedObj nm, name = nm\<rparr>),
        next_addr := Suc (next_addr h)\<rparr>)"

text \<open>
  \<open>assign(lhs, rhs)\<close> sets \<open>lhs.val\<close> and returns \<open>lhs\<close>. A host value that is
  not an object with attributes cannot be assigned to.
\<close>

definition assign :: "pyval \<Rightarrow> pyval \<Rightarrow> var_store \<Rightarrow> error + (pyval \<times> var_store)" where
  "assign lhs rhs h =
     (case lhs of
        VariableRef a \<Rightarrow>
          Inr (lhs, h\<lparr>cells := (cells h)(a := (cells h a)\<lparr>val := rhs\<rparr>)\<rparr>)
      | _ \<Rightarrow> Inl (AttributeError ''val''))"

definition unbound_message :: "string \<Rightarrow> string" where
  "unbound_message nm =
     ''local variable '' @ [CHR 0x27] @ nm @ [CHR 0x27] @ '' referenced before assignment''"

text \<open>
  \<open>read(var)\<close> follows a chain of \<open>Variable\<close> objects held in \<open>val\<close>. A chain
  that loops back never ends; \<open>None\<close> is the result of a call that does not return.
\<close>

partial_function (option) read :: "var_store \<Rightarrow> pyval \<Rightarrow> (error + pyval) option" where
  "read h var =
     (case var of
        VariableRef a \<Rightarrow>
          (case val (cells h a) of
             UndefinedObj n \<Rightarrow> Some (Inl (PyctUnboundLocalError (unbound_message n)))
           | VariableRef b \<Rightarrow> read h (VariableRef b)
           | v \<Rightarrow> Some (Inr v))
      | _ \<Rightarrow> Some (Inl AssertionError))"

text \<open>
  The value of a host boolean chain \<open>x and t1() and t2() ...\<close>, from the language
  definition: the first falsy operand, or the last operand. It is what the unconverted
  function computes, and is here for comparison with \<open>and_\<close> and \<open>or_\<close>.
\<close>

fun host_and :: "pyval \<Rightarrow> 's thunk list \<Rightarrow> 's \<Rightarrow> (error + pyval) \<times> 's" where
  "host_and x [] s = (Inr x, s)"
| "host_and x (op # operands) s =
     (if truthy x then
        (case op s of (Inl e, s') \<Rightarrow> (Inl e, s') | (Inr v, s') \<Rightarrow> host_and v operands s')
      else (Inr x, s))"

fun host_or :: "pyval \<Rightarrow> 's thunk list \<Rightarrow> 's \<Rightarrow> (error + pyval) \<times> 's" where
  "host_or x [] s = (Inr x, s)"
| "host_or x (op # operands) s =
     (if truthy x then (Inr x, s)
      else
        (case op s of (Inl e, s') \<Rightarrow> (Inl e, s') | (Inr v, s') \<Rightarrow> host_or v operands s'))"

section \<open>Isolated execution (overloads/staging.py)\<close>




section \<open>Closure re-attachment (api/conversion.py)\<close>

text \<open>
  A code object, as far as \<open>_attach_closure\<close> reads it, and a function object:
  its code, its closure (\<open>None\<close> or a tuple of cells, a cell being known by its
  address), its globals and its default arguments.
\<close>

record code =
  co_name :: string
  co_freevars :: "string list"

record func =
  func_code :: code
  func_closure :: "addr list option"
  func_globals :: "string \<rightharpoonup> pyval"
  func_defaults :: "pyval list option"

text \<open>
  \<open>{free_var: cell for free_var, cell in zip(names, cells)}\<close>: a later pair
  overwrites an earlier one with the same key.
\<close>

fun dict_of :: "(string \<times> addr) list \<Rightarrow> (string \<rightharpoonup> addr) \<Rightarrow> (string \<rightharpoonup> addr)" where
  "dict_of [] m = m"
| "dict_of ((k, c) # rest) m = dict_of rest (m(k \<mapsto> c))"

text \<open>\<open>[gen_dict[cell] for cell in gen_code.co_freevars]\<close>; a missing key raises.\<close>

fun lookup_all :: "(string \<rightharpoonup> addr) \<Rightarrow> string list \<Rightarrow> error + addr list" where
  "lookup_all m [] = Inr []"
| "lookup_all m (k # ks) =
     (case m k of
        None \<Rightarrow> Inl (KeyError k)
      | Some c \<Rightarrow> (case lookup_all m ks of Inl e \<Rightarrow> Inl e | Inr cs \<Rightarrow> Inr (c # cs)))"

text \<open>
  \<open>types.FunctionType(code, globals, argdefs, closure)\<close> refuses a closure whose
  length differs from the number of free variables of the code.
\<close>

definition FunctionType ::
  "code \<Rightarrow> (string \<rightharpoonup> pyval) \<Rightarrow> pyval list option \<Rightarrow> addr list \<Rightarrow> error + func" where
  "FunctionType c g argdefs closure =
     (if length closure \<noteq> length (co_freevars c)
      then Inl (ValueError ''closure length'')
      else Inr \<lparr>func_code = c, func_closure = Some closure,
                func_globals = g, func_defaults = argdefs\<rparr>)"

definition attach_closure :: "func \<Rightarrow> func \<Rightarrow> error + func" where
  "attach_closure original_func gen_func =
     (let gen_code = func_code gen_func;
          gen_closure = (case func_closure gen_func of None \<Rightarrow> [] | Some cs \<Rightarrow> cs);
          original_code = func_code original_func;
          original_closure = (case func_closure original_func of None \<Rightarrow> [] | Some cs \<Rightarrow> cs);
          gen_dict = dict_of (zip (co_freevars gen_code) gen_closure) Map.empty;
          original_dict = dict_of (zip (co_freevars original_code) original_closure) Map.empty;
          gen_dict' = gen_dict ++ original_dict
      in case lookup_all gen_dict' (co_freevars gen_code) of
           Inl e \<Rightarrow> Inl e
         | Inr closure \<Rightarrow>
             FunctionType gen_code (func_globals original_func)
               (func_defaults original_func) closure)"

section \<open>Syntax trees\<close>

text \<open>
  The part of the gast tree the passes look at. A \<open>FunctionDef\<close> carries the identity
  of its node (the key \<open>id(node)\<close> of the analyzer's table), its name, the ids of
  \<open>node.args.args\<close> and its body. \<open>For\<close>, \<open>While\<close> and \<open>IfNode\<close> (gast's
  \<open>If\<close>) carry, after their fields, the two sets \<open>modified\<close> of the annotations
  \<open>BODY_SCOPE\<close> and \<open>ORELSE_SCOPE\<close> that the activity analysis attaches to the node.
  \<open>ListNode\<close> is gast's \<open>List\<close> and \<open>NotOp\<close> its \<open>Not\<close>. A \<open>BoolOp\<close> holds its
  first operand and the remaining ones, \<open>values[0]\<close> and \<open>values[1:]\<close>. A node built
  by a template is a new object, \<open>Generated\<close>; a module is the list of its statements.
\<close>

datatype expr_context = Load | Store | Param

datatype boolop = And | Or

datatype unaryop = Invert | NotOp | UAdd | USub

datatype expr =
    Name string expr_context
  | Num int
  | Str string
  | Tuple "expr list" expr_context
  | ListNode "expr list" expr_context
  | Attribute expr string expr_context
  | Subscript expr expr expr_context
  | Call expr "expr list"
  | BoolOp boolop expr "expr list"
  | UnaryOp unaryop expr
  | BinOp expr string expr
  | Compare expr string expr
  | Lambda "expr list" expr

datatype node_id = Parsed nat | Generated

datatype stmt =
    FunctionDef node_id string "string list" "stmt list"
  | Return "expr option"
  | Assign "expr list" expr
  | AugAssign expr string expr
  | For expr expr "stmt list" "stmt list" "string set" "string set"
  | While expr "stmt list" "stmt list" "string set" "string set"
  | IfNode expr "stmt list" "stmt list" "string set" "string set"
  | Expr expr
  | Pass
  | Nonlocal "string list"
  | Global "string list"

text \<open>
  The overload as the passes see it: the attribute names its module defines, which is
  all that \<open>hasattr\<close> asks, and the symbol generated for it.
\<close>

record VirtualizationConfig =
  module :: "string set"
  symbol_name :: string

definition hasattr :: "string set \<Rightarrow> string \<Rightarrow> bool" where
  "hasattr m a = (a \<in> m)"


text \<open>The attribute access \<open>node.id\<close>: only a \<open>Name\<close> has this attribute.\<close>

fun get_id :: "expr \<Rightarrow> error + string" where
  "get_id (Name i c) = Inr i"
| "get_id e = Inl (AttributeError ''id'')"

fun get_ids :: "expr list \<Rightarrow> error + string list" where
  "get_ids [] = Inr []"
| "get_ids (e # es) =
     (case get_id e of Inl err \<Rightarrow> Inl err
      | Inr i \<Rightarrow> (case get_ids es of Inl err \<Rightarrow> Inl err | Inr is \<Rightarrow> Inr (i # is)))"

text \<open>
  The \<open>ValueError\<close> that the for-loop rewrites raise; \<open>type(node.target)\<close> is
  rendered by the name of the class.
\<close>

fun type_name :: "expr \<Rightarrow> string" where
  "type_name (Name i c) = ''Name''"
| "type_name (Num n) = ''Num''"
| "type_name (Str s) = ''Str''"
| "type_name (Tuple elts c) = ''Tuple''"
| "type_name (ListNode elts c) = ''List''"
| "type_name (Attribute v a c) = ''Attribute''"
| "type_name (Subscript v sl c) = ''Subscript''"
| "type_name (Call f args) = ''Call''"
| "type_name (BoolOp op first rest) = ''BoolOp''"
| "type_name (UnaryOp op operand) = ''UnaryOp''"
| "type_name (BinOp l op r) = ''BinOp''"
| "type_name (Compare l op r) = ''Compare''"
| "type_name (Lambda args body) = ''Lambda''"

definition for_target_error :: "expr \<Rightarrow> error" where
  "for_target_error target =
     ValueError (''For target must be gast.Tuple, gast.List, or gast.Name, got ''
                 @ type_name target @ ''.'')"

text \<open>
  The targets of a loop, as both \<open>VariableTransformer.visit_For\<close> and
  \<open>ControlFlowTransformer.visit_For\<close> collect them.
\<close>

fun for_targets :: "expr \<Rightarrow> error + expr list" where
  "for_targets (Tuple elts c) = Inr elts"
| "for_targets (ListNode elts c) = Inr elts"
| "for_targets (Name i c) = Inr [Name i c]"
| "for_targets target = Inl (for_target_error target)"

section \<open>Scope analysis (class ScopeTransformer of scoping.py)\<close>

text \<open>
  Modelled from the spec: sct/transformer.py and gast's \<open>NodeTransformer\<close> are not among
  the sources. In every pass below, visiting a node calls the method \<open>visit_<Class>\<close> of
  the transformer when it has one and otherwise visits the children of the node, field by
  field and left to right; a statement may be replaced by a list of statements, which is
  spliced into the enclosing block; an exception raised under a visit leaves the pass
  with its type and message unchanged.

  The state of the analyzer: the \<open>Scope\<close> objects created so far (an object is known by
  its address, its index in \<open>heap\<close>, and \<open>parent\<close> holds an address), the dictionary
  \<open>self.scopes\<close> and the current scope \<open>self.scope\<close>. Every method of the analyzer
  returns the node it was given, so only the state is passed on.
\<close>

record sc_state =
  heap :: "addr Scope list"
  scopes :: "node_id \<rightharpoonup> addr"
  scope :: "addr option"

definition sc_init :: sc_state where
  "sc_init = \<lparr>heap = [], scopes = Map.empty, scope = None\<rparr>"

definition upd_scope :: "sc_state \<Rightarrow> addr \<Rightarrow> (addr Scope \<Rightarrow> addr Scope) \<Rightarrow> sc_state" where
  "upd_scope st a f = st\<lparr>heap := (heap st)[a := f (heap st ! a)]\<rparr>"

text \<open>
  \<open>_check_local(node, name)\<close>, with \<open>c\<close> for \<open>node.ctx\<close>: first what it does to the
  current scope object, then the method itself.
\<close>

definition check_local_scope :: "'r Scope \<Rightarrow> expr_context \<Rightarrow> string \<Rightarrow> 'r Scope" where
  "check_local_scope s c nm =
     (if is_global s nm \<or> is_nonlocal s nm then s
      else if c = Store then add_local s nm
      else if \<not> is_local s nm then add_free s nm
      else s)"

definition check_local :: "sc_state \<Rightarrow> expr_context \<Rightarrow> string \<Rightarrow> sc_state" where
  "check_local st c nm =
     (case scope st of
        None \<Rightarrow> st
      | Some a \<Rightarrow> upd_scope st a (\<lambda>s. check_local_scope s c nm))"

text \<open>The loop over \<open>node.target.elts\<close> in \<open>visit_For\<close>.\<close>

fun for_elts_check :: "sc_state \<Rightarrow> expr_context \<Rightarrow> expr list \<Rightarrow> error + sc_state" where
  "for_elts_check st c [] = Inr st"
| "for_elts_check st c (target # rest) =
     (case get_id target of
        Inl e \<Rightarrow> Inl e
      | Inr i \<Rightarrow> for_elts_check (check_local st c i) c rest)"

text \<open>
  \<open>_visit_free(node, callback)\<close> together with the evaluation of its argument
  \<open>self.scope.add_nonlocal\<close> or \<open>self.scope.add_global\<close>, which fails outside any
  function.
\<close>

fun visit_free ::
  "sc_state \<Rightarrow> string \<Rightarrow> (addr Scope \<Rightarrow> string \<Rightarrow> addr Scope) \<Rightarrow> string list \<Rightarrow> error + sc_state" where
  "visit_free st meth callback names =
     (case scope st of
        None \<Rightarrow> Inl (AttributeError meth)
      | Some a \<Rightarrow> Inr (foldl (\<lambda>st' nm. upd_scope st' a (\<lambda>s. callback s nm)) st names))"

text \<open>
  Expressions: \<open>visit_Name\<close>, and the generic traversal of every other node.
\<close>

fun sc_visit_expr :: "sc_state \<Rightarrow> expr \<Rightarrow> error + sc_state"
  and sc_visit_exprs :: "sc_state \<Rightarrow> expr list \<Rightarrow> error + sc_state" where
  "sc_visit_expr st (Name i c) = Inr (check_local st c i)"
| "sc_visit_expr st (Num n) = Inr st"
| "sc_visit_expr st (Str s) = Inr st"
| "sc_visit_expr st (Tuple elts c) = sc_visit_exprs st elts"
| "sc_visit_expr st (ListNode elts c) = sc_visit_exprs st elts"
| "sc_visit_expr st (Attribute v a c) = sc_visit_expr st v"
| "sc_visit_expr st (Subscript v sl c) =
     (case sc_visit_expr st v of Inl e \<Rightarrow> Inl e | Inr st1 \<Rightarrow> sc_visit_expr st1 sl)"
| "sc_visit_expr st (Call f args) =
     (case sc_visit_expr st f of Inl e \<Rightarrow> Inl e | Inr st1 \<Rightarrow> sc_visit_exprs st1 args)"
| "sc_visit_expr st (BoolOp op first rest) =
     (case sc_visit_expr st first of Inl e \<Rightarrow> Inl e | Inr st1 \<Rightarrow> sc_visit_exprs st1 rest)"
| "sc_visit_expr st (UnaryOp op operand) = sc_visit_expr st operand"
| "sc_visit_expr st (BinOp l op r) =
     (case sc_visit_expr st l of Inl e \<Rightarrow> Inl e | Inr st1 \<Rightarrow> sc_visit_expr st1 r)"
| "sc_visit_expr st (Compare l op r) =
     (case sc_visit_expr st l of Inl e \<Rightarrow> Inl e | Inr st1 \<Rightarrow> sc_visit_expr st1 r)"
| "sc_visit_expr st (Lambda args body) =
     (case sc_visit_exprs st args of Inl e \<Rightarrow> Inl e | Inr st1 \<Rightarrow> sc_visit_expr st1 body)"
| "sc_visit_exprs st [] = Inr st"
| "sc_visit_exprs st (e # es) =
     (case sc_visit_expr st e of Inl err \<Rightarrow> Inl err | Inr st1 \<Rightarrow> sc_visit_exprs st1 es)"

text \<open>
  \<open>self.generic_visit(node)\<close> on an expression visits the children only; a \<open>Name\<close>
  has none, and for any other node \<open>visit\<close> is \<open>generic_visit\<close>.
\<close>

definition sc_generic_visit_expr :: "sc_state \<Rightarrow> expr \<Rightarrow> error + sc_state" where
  "sc_generic_visit_expr st e = (case e of Name i c \<Rightarrow> Inr st | _ \<Rightarrow> sc_visit_expr st e)"

text \<open>
  Statements: \<open>visit_FunctionDef\<close>, \<open>visit_For\<close>, \<open>visit_Nonlocal\<close>,
  \<open>visit_Global\<close>, and the generic traversal of every other statement.
\<close>

fun sc_visit :: "sc_state \<Rightarrow> stmt \<Rightarrow> error + sc_state"
  and sc_visit_block :: "sc_state \<Rightarrow> stmt list \<Rightarrow> error + sc_state" where
  "sc_visit st (FunctionDef i nm args body) =
     (let st1 = (case scope st of None \<Rightarrow> st
                 | Some a \<Rightarrow> upd_scope st a (\<lambda>s. add_local s nm));
          new = length (heap st1);
          st2 = st1\<lparr>heap := heap st1 @ [Scope_init (scope st1) (Some nm)],
                    scopes := (scopes st1)(i \<mapsto> new),
                    scope := Some new\<rparr>;
          st3 = foldl (\<lambda>st' arg. upd_scope st' new (\<lambda>s. add_local s arg)) st2 args;
          st4 = foldl (\<lambda>st' arg. check_local st' Param arg) st3 args
      in case sc_visit_block st4 body of
           Inl e \<Rightarrow> Inl e
         | Inr st5 \<Rightarrow>
             (case scope st5 of
                None \<Rightarrow> Inl (AttributeError ''parent'')
              | Some cur \<Rightarrow>
                  (let st6 = (case parent (heap st5 ! cur) of
                                None \<Rightarrow> st5
                              | Some p \<Rightarrow> upd_scope st5 p (\<lambda>s. add_local s nm))
                   in Inr (st6\<lparr>scope := parent (heap st6 ! cur)\<rparr>))))"
| "sc_visit st (Return None) = Inr st"
| "sc_visit st (Return (Some v)) = sc_visit_expr st v"
| "sc_visit st (Assign targets v) =
     (case sc_visit_exprs st targets of Inl e \<Rightarrow> Inl e | Inr st1 \<Rightarrow> sc_visit_expr st1 v)"
| "sc_visit st (AugAssign target op v) =
     (case sc_visit_expr st target of Inl e \<Rightarrow> Inl e | Inr st1 \<Rightarrow> sc_visit_expr st1 v)"
| "sc_visit st (For target iter body orelse bm om) =
     (case (case target of
              Tuple elts c \<Rightarrow> for_elts_check st c elts
            | ListNode elts c \<Rightarrow> for_elts_check st c elts
            | Name i c \<Rightarrow> Inr (check_local st c i)
            | _ \<Rightarrow> Inl (AttributeError ''id'')) of
        Inl e \<Rightarrow> Inl e
      | Inr st1 \<Rightarrow>
          (case sc_generic_visit_expr st1 iter of
             Inl e \<Rightarrow> Inl e
           | Inr st2 \<Rightarrow>
               (case sc_visit_block st2 body of
                  Inl e \<Rightarrow> Inl e
                | Inr st3 \<Rightarrow> sc_visit_block st3 orelse)))"
| "sc_visit st (While test body orelse bm om) =
     (case sc_visit_expr st test of
        Inl e \<Rightarrow> Inl e
      | Inr st1 \<Rightarrow>
          (case sc_visit_block st1 body of
             Inl e \<Rightarrow> Inl e
           | Inr st2 \<Rightarrow> sc_visit_block st2 orelse))"
| "sc_visit st (IfNode test body orelse bm om) =
     (case sc_visit_expr st test of
        Inl e \<Rightarrow> Inl e
      | Inr st1 \<Rightarrow>
          (case sc_visit_block st1 body of
             Inl e \<Rightarrow> Inl e
           | Inr st2 \<Rightarrow> sc_visit_block st2 orelse))"
| "sc_visit st (Expr v) = sc_visit_expr st v"
| "sc_visit st Pass = Inr st"
| "sc_visit st (Nonlocal names) = visit_free st ''add_nonlocal'' add_nonlocal names"
| "sc_visit st (Global names) = visit_free st ''add_global'' add_global names"
| "sc_visit_block st [] = Inr st"
| "sc_visit_block st (s # ss) =
     (case sc_visit st s of Inl e \<Rightarrow> Inl e | Inr st1 \<Rightarrow> sc_visit_block st1 ss)"


section \<open>Scope objects read through their parent references\<close>

text \<open>
  The scope object at an address with its chain of parents, as \<open>should_virtualize\<close>
  reads it. A parent is created before its children, so its address is the smaller one;
  the comparison makes this explicit and is true in every store the analyzer builds.
\<close>

function scope_tree :: "addr Scope list \<Rightarrow> addr \<Rightarrow> ScopeRef Scope" where
  "scope_tree h a =
     (case h ! a of
        Scope p l f n g fn \<Rightarrow>
          Scope (case p of
                   None \<Rightarrow> None
                 | Some q \<Rightarrow> if q < a then Some (Ref (scope_tree h q)) else None)
            l f n g fn)"
  by pat_completeness auto
termination
  by (relation "measure (\<lambda>(h, a). a)") auto

section \<open>Templates\<close>

text \<open>
  Modelled from the spec: sct/templates.py is not among the sources. \<open>templates.replace\<close>
  parses the template text and puts a copy of each supplied node, list of nodes or name
  in the place of its placeholder. Each definition below is one template of the passes
  with its placeholders filled in.
\<close>

text \<open>Modelled from the spec: the call \<open>overload.hook(args)\<close> of a template.\<close>

definition overload_call :: "string \<Rightarrow> string \<Rightarrow> expr list \<Rightarrow> expr" where
  "overload_call overload hook args = Call (Attribute (Name overload Load) hook Load) args"






section \<open>Control flow (transformers/virtualization/control\_flow.py)\<close>

text \<open>
  \<open>ControlFlowTransformer\<close> has no method for an expression, so expressions are left as
  they are. \<open>tup\<close> is \<open>tuple(...)\<close> applied to a set of names, the order in which the
  interpreter iterates over the set.
\<close>



section \<open>Logical operators (transformers/virtualization/logical\_ops.py)\<close>

definition make_lambda_nodes :: "expr list \<Rightarrow> expr list" where
  "make_lambda_nodes lst = map (\<lambda>y. Lambda [] y) lst"

definition handle_boolop :: "VirtualizationConfig \<Rightarrow> expr \<Rightarrow> expr list \<Rightarrow> string \<Rightarrow> expr" where
  "handle_boolop ov first rest func =
     overload_call (symbol_name ov) func [first, Tuple (make_lambda_nodes rest) Load]"

text \<open>\<open>visit_BoolOp\<close>, \<open>visit_UnaryOp\<close> and the generic traversal of expressions.\<close>

fun lo_visit_expr :: "VirtualizationConfig \<Rightarrow> expr \<Rightarrow> expr"
  and lo_visit_exprs :: "VirtualizationConfig \<Rightarrow> expr list \<Rightarrow> expr list" where
  "lo_visit_expr ov (BoolOp op first rest) =
     (if op = And \<and> hasattr (module ov) ''and_'' then
        handle_boolop ov (lo_visit_expr ov first) (lo_visit_exprs ov rest) ''and_''
      else if op = Or \<and> hasattr (module ov) ''or_'' then
        handle_boolop ov (lo_visit_expr ov first) (lo_visit_exprs ov rest) ''or_''
      else BoolOp op (lo_visit_expr ov first) (lo_visit_exprs ov rest))"
| "lo_visit_expr ov (UnaryOp op operand) =
     (if op = NotOp \<and> hasattr (module ov) ''not_'' then
        overload_call (symbol_name ov) ''not_'' [lo_visit_expr ov operand]
      else UnaryOp op (lo_visit_expr ov operand))"
| "lo_visit_expr ov (Name i c) = Name i c"
| "lo_visit_expr ov (Num n) = Num n"
| "lo_visit_expr ov (Str s) = Str s"
| "lo_visit_expr ov (Tuple elts c) = Tuple (lo_visit_exprs ov elts) c"
| "lo_visit_expr ov (ListNode elts c) = ListNode (lo_visit_exprs ov elts) c"
| "lo_visit_expr ov (Attribute v a c) = Attribute (lo_visit_expr ov v) a c"
| "lo_visit_expr ov (Subscript v sl c) = Subscript (lo_visit_expr ov v) (lo_visit_expr ov sl) c"
| "lo_visit_expr ov (Call f args) = Call (lo_visit_expr ov f) (lo_visit_exprs ov args)"
| "lo_visit_expr ov (BinOp l op r) = BinOp (lo_visit_expr ov l) op (lo_visit_expr ov r)"
| "lo_visit_expr ov (Compare l op r) = Compare (lo_visit_expr ov l) op (lo_visit_expr ov r)"
| "lo_visit_expr ov (Lambda args body) = Lambda (lo_visit_exprs ov args) (lo_visit_expr ov body)"
| "lo_visit_exprs ov [] = []"
| "lo_visit_exprs ov (e # es) = lo_visit_expr ov e # lo_visit_exprs ov es"


section \<open>Variables (transformers/virtualization/variables.py)\<close>



text \<open>\<open>self.scope.should_virtualize(name)\<close>, which fails when there is no scope.\<close>

definition scope_should_virtualize :: "sc_state \<Rightarrow> addr option \<Rightarrow> string \<Rightarrow> error + bool" where
  "scope_should_virtualize tbl cur nm =
     (case cur of
        None \<Rightarrow> Inl (AttributeError ''should_virtualize'')
      | Some a \<Rightarrow> Inr (py_true (should_virtualize (scope_tree (heap tbl) a) nm)))"

definition vt_visit_Name ::
  "VirtualizationConfig \<Rightarrow> sc_state \<Rightarrow> addr option \<Rightarrow> string \<Rightarrow> expr_context \<Rightarrow> error + expr" where
  "vt_visit_Name ov tbl cur i c =
     (if \<not> hasattr (module ov) ''read'' then Inr (Name i c)
      else
        (case scope_should_virtualize tbl cur i of
           Inl e \<Rightarrow> Inl e
         | Inr b \<Rightarrow>
             if b then Inr (overload_call (symbol_name ov) ''read'' [Name i Load])
             else Inr (Name i c)))"

fun vt_visit_expr :: "VirtualizationConfig \<Rightarrow> sc_state \<Rightarrow> addr option \<Rightarrow> expr \<Rightarrow> error + expr"
  and vt_visit_exprs ::
    "VirtualizationConfig \<Rightarrow> sc_state \<Rightarrow> addr option \<Rightarrow> expr list \<Rightarrow> error + expr list" where
  "vt_visit_expr ov tbl cur (Name i c) = vt_visit_Name ov tbl cur i c"
| "vt_visit_expr ov tbl cur (Num n) = Inr (Num n)"
| "vt_visit_expr ov tbl cur (Str s) = Inr (Str s)"
| "vt_visit_expr ov tbl cur (Tuple elts c) =
     (case vt_visit_exprs ov tbl cur elts of Inl e \<Rightarrow> Inl e | Inr elts' \<Rightarrow> Inr (Tuple elts' c))"
| "vt_visit_expr ov tbl cur (ListNode elts c) =
     (case vt_visit_exprs ov tbl cur elts of Inl e \<Rightarrow> Inl e
      | Inr elts' \<Rightarrow> Inr (ListNode elts' c))"
| "vt_visit_expr ov tbl cur (Attribute v a c) =
     (case vt_visit_expr ov tbl cur v of Inl e \<Rightarrow> Inl e | Inr v' \<Rightarrow> Inr (Attribute v' a c))"
| "vt_visit_expr ov tbl cur (Subscript v sl c) =
     (case vt_visit_expr ov tbl cur v of Inl e \<Rightarrow> Inl e | Inr v' \<Rightarrow>
      case vt_visit_expr ov tbl cur sl of Inl e \<Rightarrow> Inl e | Inr sl' \<Rightarrow> Inr (Subscript v' sl' c))"
| "vt_visit_expr ov tbl cur (Call f args) =
     (case vt_visit_expr ov tbl cur f of Inl e \<Rightarrow> Inl e | Inr f' \<Rightarrow>
      case vt_visit_exprs ov tbl cur args of Inl e \<Rightarrow> Inl e | Inr args' \<Rightarrow> Inr (Call f' args'))"
| "vt_visit_expr ov tbl cur (BoolOp op first rest) =
     (case vt_visit_expr ov tbl cur first of Inl e \<Rightarrow> Inl e | Inr first' \<Rightarrow>
      case vt_visit_exprs ov tbl cur rest of Inl e \<Rightarrow> Inl e
      | Inr rest' \<Rightarrow> Inr (BoolOp op first' rest'))"
| "vt_visit_expr ov tbl cur (UnaryOp op operand) =
     (case vt_visit_expr ov tbl cur operand of Inl e \<Rightarrow> Inl e
      | Inr operand' \<Rightarrow> Inr (UnaryOp op operand'))"
| "vt_visit_expr ov tbl cur (BinOp l op r) =
     (case vt_visit_expr ov tbl cur l of Inl e \<Rightarrow> Inl e | Inr l' \<Rightarrow>
      case vt_visit_expr ov tbl cur r of Inl e \<Rightarrow> Inl e | Inr r' \<Rightarrow> Inr (BinOp l' op r'))"
| "vt_visit_expr ov tbl cur (Compare l op r) =
     (case vt_visit_expr ov tbl cur l of Inl e \<Rightarrow> Inl e | Inr l' \<Rightarrow>
      case vt_visit_expr ov tbl cur r of Inl e \<Rightarrow> Inl e | Inr r' \<Rightarrow> Inr (Compare l' op r'))"
| "vt_visit_expr ov tbl cur (Lambda args body) =
     (case vt_visit_exprs ov tbl cur args of Inl e \<Rightarrow> Inl e | Inr args' \<Rightarrow>
      case vt_visit_expr ov tbl cur body of Inl e \<Rightarrow> Inl e | Inr body' \<Rightarrow> Inr (Lambda args' body'))"
| "vt_visit_exprs ov tbl cur [] = Inr []"
| "vt_visit_exprs ov tbl cur (e # es) =
     (case vt_visit_expr ov tbl cur e of Inl err \<Rightarrow> Inl err | Inr e' \<Rightarrow>
      case vt_visit_exprs ov tbl cur es of Inl err \<Rightarrow> Inl err | Inr es' \<Rightarrow> Inr (e' # es'))"





section \<open>Auxiliary notions used to state the properties\<close>

text \<open>\<open>isinstance(v, Variable)\<close>.\<close>

definition is_Variable :: "pyval \<Rightarrow> bool" where
  "is_Variable v = (case v of VariableRef a \<Rightarrow> True | _ \<Rightarrow> False)"

text \<open>A store in which no \<open>Variable\<close> has been created yet.\<close>

definition empty_store :: var_store where
  "empty_store = \<lparr>cells = (\<lambda>a. \<lparr>val = PyNone, name = []\<rparr>), next_addr = 0\<rparr>"

text \<open>The outcome of a chain with its value replaced by the truth value of that value.\<close>

definition as_bool :: "(error + pyval) \<times> 's \<Rightarrow> (error + pyval) \<times> 's" where
  "as_bool r =
     (case r of (Inl e, s) \<Rightarrow> (Inl e, s) | (Inr v, s) \<Rightarrow> (Inr (PyBool (truthy v)), s))"

text \<open>The thunk \<open>lambda: v\<close> for a value \<open>v\<close>.\<close>

definition returns :: "pyval \<Rightarrow> 's thunk" where
  "returns v = (\<lambda>s. (Inr v, s))"

text \<open>
  Thunks that record their invocation: the state is the log of the thunks invoked so
  far, thunk number \<open>i\<close> appends \<open>i\<close> to it and then returns or raises \<open>r\<close>.
\<close>

definition logged :: "nat \<Rightarrow> error + pyval \<Rightarrow> nat list thunk" where
  "logged i r = (\<lambda>log. (r, log @ [i]))"

fun logged_from :: "nat \<Rightarrow> (error + pyval) list \<Rightarrow> nat list thunk list" where
  "logged_from i [] = []"
| "logged_from i (r # rs) = logged i r # logged_from (Suc i) rs"

text \<open>An operand outcome after which \<open>and_\<close> (resp. \<open>or_\<close>) goes on to the next thunk.\<close>

definition goes_on_and :: "error + pyval \<Rightarrow> bool" where
  "goes_on_and r = (case r of Inl e \<Rightarrow> False | Inr v \<Rightarrow> truthy v)"

definition goes_on_or :: "error + pyval \<Rightarrow> bool" where
  "goes_on_or r = (case r of Inl e \<Rightarrow> False | Inr v \<Rightarrow> \<not> truthy v)"

text \<open>
  What the interpreter guarantees of every function object: one closure cell per free
  variable of its code, and no free variable listed twice.
\<close>

definition closure_cells :: "func \<Rightarrow> addr list" where
  "closure_cells f = (case func_closure f of None \<Rightarrow> [] | Some cs \<Rightarrow> cs)"

definition well_formed_func :: "func \<Rightarrow> bool" where
  "well_formed_func f =
     (length (closure_cells f) = length (co_freevars (func_code f)) \<and>
      distinct (co_freevars (func_code f)))"


text \<open>A result that is an exception.\<close>

definition fails :: "error + 'a \<Rightarrow> bool" where
  "fails r = (case r of Inl e \<Rightarrow> True | Inr x \<Rightarrow> False)"


text \<open>Every scope object of the analyzer has disjoint \<open>locals\<close> and \<open>free\<close>.\<close>

definition heap_disjoint :: "sc_state \<Rightarrow> bool" where
  "heap_disjoint st = (\<forall>s \<in> set (heap st). locals_free_disjoint s)"

text \<open>
  Concrete inputs: an overload module with every hook, a namer that returns the name it
  is asked for, and two modules,
  \<^verbatim>\<open>def f(o): o.x = 1; o.n += 1\<close> and \<^verbatim>\<open>def f(o, xs): for o.x in xs: pass\<close>.
\<close>

definition demo_overload :: VirtualizationConfig where
  "demo_overload = \<lparr>module = {''init'', ''assign'', ''read'', ''if_stmt'', ''while_stmt'',
                               ''for_stmt'', ''and_'', ''or_'', ''not_''},
                    symbol_name = ''overload''\<rparr>"




section \<open>Properties of scopes\<close>

lemma should_virtualize_unfold:
  "py_true (should_virtualize s n) =
     (n \<in> locals s \<or>
      ((n \<in> nonlocals s \<or> n \<in> free s) \<and>
       (\<exists>p. parent s = Some (Ref p) \<and> py_true (should_virtualize p n))))"
proof (cases s)
  case (Scope p l f nl g fn)
  show ?thesis
  proof (cases p)
    case None
    with Scope show ?thesis by (simp add: py_true_def)
  next
    case (Some r)
    then obtain ps where "r = Ref ps" by (cases r) simp
    with Some Scope show ?thesis by (simp add: py_true_def)
  qed
qed

text \<open>
  Claim C1, as amended. For every scope \<open>s\<close> and name \<open>n\<close>, \<open>s.should_virtualize(n)\<close>
  is true if and only if \<open>n\<close> is in \<open>s.locals\<close>, or \<open>n\<close> is in \<open>s.nonlocals\<close> or
  \<open>s.free\<close> and \<open>s\<close> has a parent whose \<open>should_virtualize(n)\<close> is true. In particular
  it is false whenever \<open>n\<close> is not in \<open>s.locals\<close> and either \<open>n\<close> is in neither
  \<open>s.nonlocals\<close> nor \<open>s.free\<close> (a name that is only in \<open>s.globals\<close>, for one) or \<open>s\<close>
  has no parent that virtualizes \<open>n\<close>.
\<close>

theorem C1_should_virtualize:
  "(py_true (should_virtualize s n) \<longleftrightarrow>
     (n \<in> locals s \<or>
      ((n \<in> nonlocals s \<or> n \<in> free s) \<and>
       (\<exists>p. parent s = Some (Ref p) \<and> py_true (should_virtualize p n)))))
   \<and> (n \<notin> locals s \<and>
        ((n \<notin> nonlocals s \<and> n \<notin> free s) \<or>
         \<not> (\<exists>p. parent s = Some (Ref p) \<and> py_true (should_virtualize p n)))
      \<longrightarrow> \<not> py_true (should_virtualize s n))"
  using should_virtualize_unfold [of s n] by blast

theorem C1_should_virtualize_witness:
  "''x'' \<notin> locals (Scope None {} {} {} {''x''} (Some ''f'')) \<and>
   ''x'' \<notin> nonlocals (Scope None {} {} {} {''x''} (Some ''f'')) \<and>
   ''x'' \<notin> free (Scope None {} {} {} {''x''} (Some ''f'')) \<and>
   \<not> py_true (should_virtualize (Scope None {} {} {} {''x''} (Some ''f'')) ''x'')"
  using C1_should_virtualize [of "Scope None {} {} {} {''x''} (Some ''f'')" "''x''"]
  by simp

text \<open>
  The claim as it was stated fails. A local of a function that is not nested is
  virtualized although the scope has no parent; and after \<open>add_global('g')\<close> and
  \<open>add_local('g')\<close>, which is what the analyzer does for
  \<^verbatim>\<open>def f(): global g; def g(): pass\<close>, the name is in \<open>globals\<close> and
  \<open>should_virtualize('g')\<close> is \<open>True\<close>.
\<close>

theorem C1_counterexample:
  "parent (add_local (Scope_init (None :: ScopeRef option) (Some ''f'')) ''x'') = None \<and>
   should_virtualize (add_local (Scope_init None (Some ''f'')) ''x'') ''x'' = Some True \<and>
   ''g'' \<in> globals (add_local (add_global (Scope_init (None :: ScopeRef option) (Some ''f''))
                                  ''g'') ''g'') \<and>
   should_virtualize (add_local (add_global (Scope_init None (Some ''f'')) ''g'') ''g'') ''g''
     = Some True"
  by (simp add: Scope_init_def)

lemma scope_ops_disjoint:
  assumes "locals_free_disjoint s"
  shows "locals_free_disjoint (add_local s v)"
    and "locals_free_disjoint (add_nonlocal s v)"
    and "locals_free_disjoint (add_global s v)"
    and "locals_free_disjoint (check_local_scope s c v)"
  using assms
  by (cases s; auto simp: locals_free_disjoint_def check_local_scope_def is_local_def)+

lemma upd_scope_disjoint:
  assumes "heap_disjoint st" and "\<And>s. locals_free_disjoint s \<Longrightarrow> locals_free_disjoint (f s)"
  shows "heap_disjoint (upd_scope st a f)"
proof (cases "a < length (heap st)")
  case True
  then have "heap st ! a \<in> set (heap st)" by simp
  with assms have "locals_free_disjoint (f (heap st ! a))" by (simp add: heap_disjoint_def)
  with assms(1) show ?thesis
    using set_update_subset_insert [of "heap st" a "f (heap st ! a)"]
    by (auto simp: heap_disjoint_def upd_scope_def)
next
  case False
  then have "(heap st)[a := f (heap st ! a)] = heap st" by (simp add: list_update_beyond)
  with assms(1) show ?thesis by (simp add: heap_disjoint_def upd_scope_def)
qed

lemma check_local_disjoint: "heap_disjoint st \<Longrightarrow> heap_disjoint (check_local st c nm)"
  by (auto simp: check_local_def split: option.splits
      intro!: upd_scope_disjoint scope_ops_disjoint)

lemma foldl_upd_disjoint:
  assumes "heap_disjoint st" and "\<And>s nm. locals_free_disjoint s \<Longrightarrow> locals_free_disjoint (f s nm)"
  shows "heap_disjoint (foldl (\<lambda>st' nm. upd_scope st' a (\<lambda>s. f s nm)) st names)"
  using assms(1)
proof (induction names arbitrary: st)
  case Nil
  then show ?case by simp
next
  case (Cons nm names)
  have "heap_disjoint (upd_scope st a (\<lambda>s. f s nm))"
    using Cons.prems assms(2) by (rule upd_scope_disjoint)
  then show ?case using Cons.IH by simp
qed

lemma foldl_check_local_disjoint:
  "heap_disjoint st \<Longrightarrow> heap_disjoint (foldl (\<lambda>st' arg. check_local st' c arg) st args)"
  by (induction args arbitrary: st) (simp_all add: check_local_disjoint)

lemma sc_expr_disjoint:
  "sc_visit_expr st e = Inr st' \<Longrightarrow> heap_disjoint st \<Longrightarrow> heap_disjoint st'"
  "sc_visit_exprs st es = Inr st' \<Longrightarrow> heap_disjoint st \<Longrightarrow> heap_disjoint st'"
  by (induction st e and st es arbitrary: st' and st' rule: sc_visit_expr_sc_visit_exprs.induct)
     (auto split: sum.splits intro: check_local_disjoint)


lemma for_elts_check_disjoint:
  "for_elts_check st c elts = Inr st' \<Longrightarrow> heap_disjoint st \<Longrightarrow> heap_disjoint st'"
  by (induction elts arbitrary: st) (auto split: sum.splits intro: check_local_disjoint)

lemma sc_generic_expr_disjoint:
  "sc_generic_visit_expr st e = Inr st' \<Longrightarrow> heap_disjoint st \<Longrightarrow> heap_disjoint st'"
  unfolding sc_generic_visit_expr_def
  by (cases e) (auto simp del: sc_visit_expr.simps dest: sc_expr_disjoint(1))

lemma sc_block_disjoint:
  assumes "sc_visit_block st ss = Inr st'" and "heap_disjoint st"
    and "\<And>s st st'. s \<in> set ss \<Longrightarrow> sc_visit st s = Inr st' \<Longrightarrow> heap_disjoint st
             \<Longrightarrow> heap_disjoint st'"
  shows "heap_disjoint st'"
  using assms
proof (induction ss arbitrary: st)
  case Nil
  then show ?case by simp
next
  case (Cons s ss)
  from Cons.prems(1) obtain st1 where s: "sc_visit st s = Inr st1"
    and ss: "sc_visit_block st1 ss = Inr st'"
    by (auto split: sum.splits)
  from Cons.prems(3) [of s st st1] s Cons.prems(2) have h1: "heap_disjoint st1" by simp
  show ?case
  proof (rule Cons.IH [OF ss h1])
    fix s' a b
    assume "s' \<in> set ss" "sc_visit a s' = Inr b" "heap_disjoint a"
    then show "heap_disjoint b" using Cons.prems(3) [of s' a b] by simp
  qed
qed

lemma append_scope_disjoint:
  "heap_disjoint st \<Longrightarrow>
   heap_disjoint (st\<lparr>heap := heap st @ [Scope_init p fn], scopes := m, scope := c\<rparr>)"
  by (auto simp: heap_disjoint_def Scope_init_def locals_free_disjoint_def)

lemma set_scope_disjoint: "heap_disjoint st \<Longrightarrow> heap_disjoint (st\<lparr>scope := c\<rparr>)"
  by (simp add: heap_disjoint_def)

lemma sc_FunctionDef_disjoint:
  assumes body: "\<And>st st'. sc_visit_block st body = Inr st' \<Longrightarrow> heap_disjoint st
                   \<Longrightarrow> heap_disjoint st'"
    and run: "sc_visit st (FunctionDef i nm args body) = Inr st'"
    and inv: "heap_disjoint st"
  shows "heap_disjoint st'"
proof -
  define st1 where "st1 = (case scope st of None \<Rightarrow> st
                           | Some a \<Rightarrow> upd_scope st a (\<lambda>s. add_local s nm))"
  define new where "new = length (heap st1)"
  define st2 where "st2 = st1\<lparr>heap := heap st1 @ [Scope_init (scope st1) (Some nm)],
                    scopes := (scopes st1)(i \<mapsto> new), scope := Some new\<rparr>"
  define st3 where "st3 = foldl (\<lambda>st' arg. upd_scope st' new (\<lambda>s. add_local s arg)) st2 args"
  define st4 where "st4 = foldl (\<lambda>st' arg. check_local st' Param arg) st3 args"
  have 1: "heap_disjoint st1"
    unfolding st1_def using inv
    by (auto split: option.splits intro!: upd_scope_disjoint scope_ops_disjoint)
  have 2: "heap_disjoint st2"
    unfolding st2_def using 1 by (rule append_scope_disjoint)
  have 3: "heap_disjoint st3"
    unfolding st3_def using 2 by (rule foldl_upd_disjoint) (rule scope_ops_disjoint)
  have 4: "heap_disjoint st4"
    unfolding st4_def using 3 by (rule foldl_check_local_disjoint)
  from run obtain st5 cur where b: "sc_visit_block st4 body = Inr st5"
    and cur: "scope st5 = Some cur"
    and res: "st' = (let st6 = (case parent (heap st5 ! cur) of
                                None \<Rightarrow> st5
                              | Some p \<Rightarrow> upd_scope st5 p (\<lambda>s. add_local s nm))
                     in st6\<lparr>scope := parent (heap st6 ! cur)\<rparr>)"
    by (auto simp: st1_def new_def st2_def st3_def st4_def Let_def
        split: sum.splits option.splits)
  from body [OF b 4] have 5: "heap_disjoint st5" .
  have "heap_disjoint (case parent (heap st5 ! cur) of
                                None \<Rightarrow> st5
                              | Some p \<Rightarrow> upd_scope st5 p (\<lambda>s. add_local s nm))"
    using 5 by (auto split: option.splits intro!: upd_scope_disjoint scope_ops_disjoint)
  then show ?thesis
    unfolding res Let_def by (rule set_scope_disjoint)
qed

lemma visit_free_disjoint:
  assumes "visit_free st meth callback names = Inr st'" and "heap_disjoint st"
    and "\<And>s nm. locals_free_disjoint s \<Longrightarrow> locals_free_disjoint (callback s nm)"
  shows "heap_disjoint st'"
  using assms(1,2) foldl_upd_disjoint [of st callback _ names, OF assms(2) assms(3)]
  by (auto split: option.splits)

lemma sc_disjoint:
  "sc_visit st s = Inr st' \<Longrightarrow> heap_disjoint st \<Longrightarrow> heap_disjoint st'"
proof (induction s arbitrary: st st')
  case (FunctionDef i nm args body)
  have "heap_disjoint b'" if "sc_visit_block b body = Inr b'" "heap_disjoint b" for b b'
    using that by (rule sc_block_disjoint) (auto intro: FunctionDef.IH)
  then show ?case using FunctionDef.prems by (rule sc_FunctionDef_disjoint)
next
  case (Return v)
  then show ?case by (cases v) (auto dest: sc_expr_disjoint)
next
  case (Assign targets v)
  then show ?case by (auto split: sum.splits dest: sc_expr_disjoint)
next
  case (AugAssign target op v)
  then show ?case by (auto split: sum.splits dest: sc_expr_disjoint)
next
  case (For target iter body orelse bm om)
  from For.prems(1) obtain st1 st2 st3 where
    t: "(case target of
              Tuple elts c \<Rightarrow> for_elts_check st c elts
            | ListNode elts c \<Rightarrow> for_elts_check st c elts
            | Name i c \<Rightarrow> Inr (check_local st c i)
            | _ \<Rightarrow> Inl (AttributeError ''id'')) = Inr st1"
    and i: "sc_generic_visit_expr st1 iter = Inr st2"
    and b: "sc_visit_block st2 body = Inr st3"
    and e: "sc_visit_block st3 orelse = Inr st'"
    by (auto split: sum.splits)
  from t For.prems(2) have "heap_disjoint st1"
    by (cases target) (auto dest: for_elts_check_disjoint intro: check_local_disjoint)
  with i have "heap_disjoint st2" by (rule sc_generic_expr_disjoint)
  with b have "heap_disjoint st3" by (rule sc_block_disjoint) (auto intro: For.IH(1))
  with e show ?case by (rule sc_block_disjoint) (auto intro: For.IH(2))
next
  case (While test body orelse bm om)
  from While.prems(1) obtain st1 st2 where
    t: "sc_visit_expr st test = Inr st1"
    and b: "sc_visit_block st1 body = Inr st2"
    and e: "sc_visit_block st2 orelse = Inr st'"
    by (auto split: sum.splits)
  from t While.prems(2) have "heap_disjoint st1" by (rule sc_expr_disjoint)
  with b have "heap_disjoint st2" by (rule sc_block_disjoint) (auto intro: While.IH(1))
  with e show ?case by (rule sc_block_disjoint) (auto intro: While.IH(2))
next
  case (IfNode test body orelse bm om)
  from IfNode.prems(1) obtain st1 st2 where
    t: "sc_visit_expr st test = Inr st1"
    and b: "sc_visit_block st1 body = Inr st2"
    and e: "sc_visit_block st2 orelse = Inr st'"
    by (auto split: sum.splits)
  from t IfNode.prems(2) have "heap_disjoint st1" by (rule sc_expr_disjoint)
  with b have "heap_disjoint st2" by (rule sc_block_disjoint) (auto intro: IfNode.IH(1))
  with e show ?case by (rule sc_block_disjoint) (auto intro: IfNode.IH(2))
next
  case (Expr v)
  then show ?case by (auto dest: sc_expr_disjoint)
next
  case Pass
  then show ?case by simp
next
  case (Nonlocal names)
  then show ?case
    by (auto intro: visit_free_disjoint [where callback = add_nonlocal] scope_ops_disjoint)
next
  case (Global names)
  then show ?case
    by (auto intro: visit_free_disjoint [where callback = add_global] scope_ops_disjoint)
qed

text \<open>
  Claim C6, as amended. Adding a name to \<open>locals\<close> removes it from \<open>free\<close>, and
  promoting a name to nonlocal or global removes it from \<open>locals\<close>; these three
  operations and \<open>_check_local\<close> keep \<open>locals\<close> and \<open>free\<close> disjoint. \<open>add_free\<close>
  leaves \<open>locals\<close> as it is, and keeps the two sets disjoint when the name is not a
  local, which is the only case in which the analyzer calls it. Hence every scope in the
  table that the analyzer returns has disjoint \<open>locals\<close> and \<open>free\<close>.
\<close>

theorem C6_scope_operations:
  "(locals_free_disjoint s \<longrightarrow>
     locals_free_disjoint (add_local s v) \<and> v \<in> locals (add_local s v) \<and>
       v \<notin> free (add_local s v) \<and>
     locals_free_disjoint (add_nonlocal s v) \<and> v \<notin> locals (add_nonlocal s v) \<and>
       v \<in> nonlocals (add_nonlocal s v) \<and>
     locals_free_disjoint (add_global s v) \<and> v \<notin> locals (add_global s v) \<and>
       v \<in> globals (add_global s v) \<and>
     locals_free_disjoint (check_local_scope s c v) \<and>
     (\<not> is_local s v \<longrightarrow> locals_free_disjoint (add_free s v))) \<and>
   locals (add_free s v) = locals s \<and> v \<in> free (add_free s v) \<and>
   (sc_visit_block sc_init node = Inr tbl \<longrightarrow>
      (\<forall>a < length (heap tbl). locals_free_disjoint (heap tbl ! a)))"
proof -
  have ops: "locals_free_disjoint (add_local s v) \<and> v \<in> locals (add_local s v) \<and>
       v \<notin> free (add_local s v) \<and>
     locals_free_disjoint (add_nonlocal s v) \<and> v \<notin> locals (add_nonlocal s v) \<and>
       v \<in> nonlocals (add_nonlocal s v) \<and>
     locals_free_disjoint (add_global s v) \<and> v \<notin> locals (add_global s v) \<and>
       v \<in> globals (add_global s v) \<and>
     (\<not> is_local s v \<longrightarrow> locals_free_disjoint (add_free s v))"
    if "locals_free_disjoint s"
    using that by (cases s) (auto simp: locals_free_disjoint_def is_local_def)
  have fr: "locals (add_free s v) = locals s \<and> v \<in> free (add_free s v)"
    by (cases s) simp
  have tbl: "\<forall>a < length (heap tbl). locals_free_disjoint (heap tbl ! a)"
    if run: "sc_visit_block sc_init node = Inr tbl"
  proof -
    have "heap_disjoint sc_init" by (simp add: heap_disjoint_def sc_init_def)
    with run have "heap_disjoint tbl"
      by (rule sc_block_disjoint) (rule sc_disjoint)
    then show ?thesis by (simp add: heap_disjoint_def)
  qed
  from ops fr tbl scope_ops_disjoint(4) [of s c v] show ?thesis by blast
qed

theorem C6_scope_operations_witness:
  "locals_free_disjoint (Scope (None :: addr option) {} {''x''} {} {} None) \<and>
   locals_free_disjoint (add_local (Scope (None :: addr option) {} {''x''} {} {} None) ''x'') \<and>
   ''x'' \<notin> free (add_local (Scope (None :: addr option) {} {''x''} {} {} None) ''x'') \<and>
   (\<exists>tbl. sc_visit_block sc_init
            [FunctionDef (Parsed 0) ''f'' [''a''] [Return (Some (Name ''b'' Load))]]
            = Inr tbl \<and> locals_free_disjoint (heap tbl ! 0))"
proof -
  let ?s = "Scope (None :: addr option) {} {''x''} {} {} None"
  let ?node = "[FunctionDef (Parsed 0) ''f'' [''a''] [Return (Some (Name ''b'' Load))]]"
  let ?tbl = "\<lparr>heap = [Scope None {''a''} {''b''} {} {} (Some ''f'')],
              scopes = [Parsed 0 \<mapsto> 0], scope = None\<rparr>"
  have d: "locals_free_disjoint ?s" by (simp add: locals_free_disjoint_def)
  have run: "sc_visit_block sc_init ?node = Inr ?tbl"
    by (simp add: sc_init_def Scope_init_def upd_scope_def check_local_def
        check_local_scope_def is_global_def is_nonlocal_def is_local_def)
  from C6_scope_operations [of ?s "''x''" Load ?node ?tbl] d run
  show ?thesis by simp
qed

text \<open>
  The claim as it was stated fails for \<open>add_free\<close>: adding to \<open>free\<close> a name that is
  a local leaves it in \<open>locals\<close>, and the two sets overlap.
\<close>

theorem C6_counterexample:
  "locals_free_disjoint (add_local (Scope_init (None :: addr option) None) ''x'') \<and>
   ''x'' \<in> locals (add_free (add_local (Scope_init (None :: addr option) None) ''x'') ''x'') \<and>
   \<not> locals_free_disjoint
       (add_free (add_local (Scope_init (None :: addr option) None) ''x'') ''x'')"
  by (simp add: Scope_init_def locals_free_disjoint_def)

section \<open>Properties of the default overload\<close>

lemma read_undefined:
  "val (cells h a) = UndefinedObj n \<Longrightarrow>
   read h (VariableRef a) = Some (Inl (PyctUnboundLocalError (unbound_message n)))"
  by (subst read.simps) simp

lemma read_plain:
  "val (cells h a) = x \<Longrightarrow> \<not> is_undefined x \<Longrightarrow> \<not> is_Variable x \<Longrightarrow>
   read h (VariableRef a) = Some (Inr x)"
  by (subst read.simps) (cases x; simp add: is_undefined_def is_Variable_def)

lemma unbound_message_contains: "\<exists>pre post. unbound_message nm = pre @ nm @ post"
  unfolding unbound_message_def by (metis append_assoc)

text \<open>
  Claim C2. Let \<open>var\<close> be the handle that \<open>init(nm)\<close> returns. In every store in which
  the object of \<open>var\<close> is as \<open>init\<close> left it, \<open>read(var)\<close> returns (it is not
  \<open>None\<close>) and raises \<open>PyctUnboundLocalError\<close> with a message that contains \<open>nm\<close>.
  For a value \<open>x\<close> that is neither an \<open>Undefined\<close> nor a \<open>Variable\<close>,
  \<open>assign(var, x)\<close> returns the handle \<open>var\<close> itself, and in every store in which the
  object of \<open>var\<close> is as \<open>assign\<close> left it, \<open>read(var)\<close> returns \<open>x\<close> without raising.
\<close>

theorem C2_read_after_init_and_assign:
  assumes "init nm h0 = (var, h1)"
  shows "\<exists>a. var = VariableRef a \<and>
     (\<forall>h. cells h a = cells h1 a \<longrightarrow>
        read h var = Some (Inl (PyctUnboundLocalError (unbound_message nm)))) \<and>
     (\<exists>pre post. unbound_message nm = pre @ nm @ post) \<and>
     (\<forall>h x. \<not> is_undefined x \<and> \<not> is_Variable x \<longrightarrow>
        (\<exists>h'. assign var x h = Inr (var, h') \<and>
           (\<forall>h''. cells h'' a = cells h' a \<longrightarrow> read h'' var = Some (Inr x))))"
proof -
  let ?a = "next_addr h0"
  from assms have var: "var = VariableRef ?a"
    and h1: "cells h1 ?a = \<lparr>val = UndefinedObj nm, name = nm\<rparr>"
    by (auto simp: init_def)
  have unbound: "read h var = Some (Inl (PyctUnboundLocalError (unbound_message nm)))"
    if "cells h ?a = cells h1 ?a" for h
    using that h1 var by (simp add: read_undefined)
  have assigned: "\<exists>h'. assign var x h = Inr (var, h') \<and>
           (\<forall>h''. cells h'' ?a = cells h' ?a \<longrightarrow> read h'' var = Some (Inr x))"
    if "\<not> is_undefined x \<and> \<not> is_Variable x" for h x
  proof -
    let ?h' = "h\<lparr>cells := (cells h)(?a := (cells h ?a)\<lparr>val := x\<rparr>)\<rparr>"
    have "assign var x h = Inr (var, ?h')" by (simp add: assign_def var)
    moreover have "read h'' var = Some (Inr x)" if "cells h'' ?a = cells ?h' ?a" for h''
      using that \<open>\<not> is_undefined x \<and> \<not> is_Variable x\<close> var by (simp add: read_plain)
    ultimately show ?thesis by blast
  qed
  from var unbound assigned unbound_message_contains show ?thesis by blast
qed

theorem C2_read_after_init_and_assign_witness:
  "read (snd (init ''x'' empty_store)) (fst (init ''x'' empty_store))
     = Some (Inl (PyctUnboundLocalError (unbound_message ''x''))) \<and>
   (\<exists>h'. assign (fst (init ''x'' empty_store)) (PyInt 7) (snd (init ''x'' empty_store))
            = Inr (fst (init ''x'' empty_store), h') \<and>
          read h' (fst (init ''x'' empty_store)) = Some (Inr (PyInt 7)))"
proof -
  obtain a where a: "fst (init ''x'' empty_store) = VariableRef a"
    and unb: "\<forall>h. cells h a = cells (snd (init ''x'' empty_store)) a \<longrightarrow>
        read h (fst (init ''x'' empty_store))
          = Some (Inl (PyctUnboundLocalError (unbound_message ''x'')))"
    and asg: "\<forall>h x. \<not> is_undefined x \<and> \<not> is_Variable x \<longrightarrow>
        (\<exists>h'. assign (fst (init ''x'' empty_store)) x h
                 = Inr (fst (init ''x'' empty_store), h') \<and>
           (\<forall>h''. cells h'' a = cells h' a \<longrightarrow>
              read h'' (fst (init ''x'' empty_store)) = Some (Inr x)))"
    using C2_read_after_init_and_assign
      [of "''x''" empty_store "fst (init ''x'' empty_store)" "snd (init ''x'' empty_store)"]
    by auto
  have "\<not> is_undefined (PyInt 7) \<and> \<not> is_Variable (PyInt 7)"
    by (simp add: is_undefined_def is_Variable_def)
  with asg obtain h' where
    "assign (fst (init ''x'' empty_store)) (PyInt 7) (snd (init ''x'' empty_store))
       = Inr (fst (init ''x'' empty_store), h')"
    "\<forall>h''. cells h'' a = cells h' a \<longrightarrow>
        read h'' (fst (init ''x'' empty_store)) = Some (Inr (PyInt 7))"
    by blast
  with unb show ?thesis by blast
qed

lemma and_loop_host:
  "truthy x \<Longrightarrow> and_loop operands s = as_bool (host_and x operands s)"
proof (induction operands arbitrary: x s)
  case Nil
  then show ?case by (simp add: as_bool_def)
next
  case (Cons op operands)
  show ?case
  proof (cases "op s")
    case (Pair r s')
    show ?thesis
    proof (cases r)
      case (Inl e)
      with Pair Cons.prems show ?thesis by (simp add: as_bool_def)
    next
      case (Inr v)
      show ?thesis
      proof (cases "truthy v")
        case True
        with Pair Inr Cons.prems Cons.IH [OF True, of s'] show ?thesis by simp
      next
        case False
        with Pair Inr Cons.prems show ?thesis
          by (cases operands) (simp_all add: as_bool_def)
      qed
    qed
  qed
qed

lemma and_overload_host: "and_overload x operands s = as_bool (host_and x operands s)"
proof (cases "truthy x")
  case True
  then show ?thesis by (simp add: and_overload_def and_loop_host)
next
  case False
  then show ?thesis by (cases operands) (simp_all add: and_overload_def as_bool_def)
qed

lemma or_loop_host:
  "\<not> truthy x \<Longrightarrow> or_loop operands s = as_bool (host_or x operands s)"
proof (induction operands arbitrary: x s)
  case Nil
  then show ?case by (simp add: as_bool_def)
next
  case (Cons op operands)
  show ?case
  proof (cases "op s")
    case (Pair r s')
    show ?thesis
    proof (cases r)
      case (Inl e)
      with Pair Cons.prems show ?thesis by (simp add: as_bool_def)
    next
      case (Inr v)
      show ?thesis
      proof (cases "truthy v")
        case False
        with Pair Inr Cons.prems Cons.IH [OF False, of s'] show ?thesis by simp
      next
        case True
        with Pair Inr Cons.prems show ?thesis
          by (cases operands) (simp_all add: as_bool_def)
      qed
    qed
  qed
qed

lemma or_overload_host: "or_overload x operands s = as_bool (host_or x operands s)"
proof (cases "truthy x")
  case False
  then show ?thesis by (simp add: or_overload_def or_loop_host)
next
  case True
  then show ?thesis by (cases operands) (simp_all add: or_overload_def as_bool_def)
qed

lemma as_bool_cases:
  "(\<exists>e. fst (as_bool r) = Inl e) \<or> fst (as_bool r) = Inr (PyBool True) \<or>
   fst (as_bool r) = Inr (PyBool False)"
  by (cases r; cases "fst r") (auto simp: as_bool_def)

text \<open>
  Claim C10. Whatever the first operand and the thunks are, \<open>and_\<close> and \<open>or_\<close>
  return the truth value of what the host chain returns, with the same effects and the
  same exception if a thunk raises: the result is \<open>True\<close> or \<open>False\<close>, not the
  operand that decides the chain. For one, \<open>and_(2, (lambda: 3,))\<close> is \<open>True\<close> where
  the host's \<open>2 and 3\<close> is \<open>3\<close>, and \<open>or_(2, (lambda: 3,))\<close> is \<open>True\<close> where the
  host's \<open>2 or 3\<close> is \<open>2\<close>.
\<close>

theorem C10_boolean_results:
  "and_overload x operands s = as_bool (host_and x operands s) \<and>
   or_overload x operands s = as_bool (host_or x operands s) \<and>
   ((\<exists>e. fst (and_overload x operands s) = Inl e) \<or>
    fst (and_overload x operands s) = Inr (PyBool True) \<or>
    fst (and_overload x operands s) = Inr (PyBool False)) \<and>
   ((\<exists>e. fst (or_overload x operands s) = Inl e) \<or>
    fst (or_overload x operands s) = Inr (PyBool True) \<or>
    fst (or_overload x operands s) = Inr (PyBool False)) \<and>
   and_overload (PyInt 2) [returns (PyInt 3)] s = (Inr (PyBool True), s) \<and>
   host_and (PyInt 2) [returns (PyInt 3)] s = (Inr (PyInt 3), s) \<and>
   or_overload (PyInt 2) [returns (PyInt 3)] s = (Inr (PyBool True), s) \<and>
   host_or (PyInt 2) [returns (PyInt 3)] s = (Inr (PyInt 2), s)"
  using as_bool_cases [of "host_and x operands s"] as_bool_cases [of "host_or x operands s"]
  by (simp add: and_overload_host or_overload_host)
     (simp add: as_bool_def returns_def)

lemma upt_Suc_shift: "[i ..< i + Suc n] = i # [Suc i ..< Suc i + n]"
  by (simp add: upt_conv_Cons)

lemma and_loop_log:
  "snd (and_loop (logged_from i rs) log) =
     log @ take (Suc (length (takeWhile goes_on_and rs))) [i ..< i + length rs]"
proof (induction rs arbitrary: i log)
  case Nil
  then show ?case by simp
next
  case (Cons r rs)
  have upt: "[i ..< i + length (r # rs)] = i # [Suc i ..< Suc i + length rs]"
    using upt_Suc_shift [of i "length rs"] by simp
  show ?case
  proof (cases r)
    case (Inl e)
    then show ?thesis unfolding upt by (simp add: logged_def goes_on_and_def)
  next
    case (Inr v)
    show ?thesis
    proof (cases "truthy v")
      case True
      with Inr show ?thesis unfolding upt
        by (simp add: logged_def goes_on_and_def Cons.IH)
    next
      case False
      with Inr show ?thesis unfolding upt
        by (simp add: logged_def goes_on_and_def)
    qed
  qed
qed

lemma or_loop_log:
  "snd (or_loop (logged_from i rs) log) =
     log @ take (Suc (length (takeWhile goes_on_or rs))) [i ..< i + length rs]"
proof (induction rs arbitrary: i log)
  case Nil
  then show ?case by simp
next
  case (Cons r rs)
  have upt: "[i ..< i + length (r # rs)] = i # [Suc i ..< Suc i + length rs]"
    using upt_Suc_shift [of i "length rs"] by simp
  show ?case
  proof (cases r)
    case (Inl e)
    then show ?thesis unfolding upt by (simp add: logged_def goes_on_or_def)
  next
    case (Inr v)
    show ?thesis
    proof (cases "truthy v")
      case False
      with Inr show ?thesis unfolding upt
        by (simp add: logged_def goes_on_or_def Cons.IH)
    next
      case True
      with Inr show ?thesis unfolding upt
        by (simp add: logged_def goes_on_or_def)
    qed
  qed
qed

text \<open>
  Claim C4. When the overload has the hook, a chain \<open>first op rest\<close> is rewritten to
  the call \<open>overload.and_(first, (lambda: r1, lambda: r2, ...))\<close> (or \<open>or_\<close>): the
  first operand is passed as it is and every other operand is the body of a lambda with
  no argument, in the order of the chain. Run on thunks that log their invocation, the
  default \<open>and_\<close> invokes the thunks from the left, each once, up to and including the
  first one that does not return a true value, and none when the first operand is
  false; \<open>or_\<close> does the same up to the first thunk that does not return a false value.
  For \<open>x and y and foo()\<close>, the thunk of \<open>foo()\<close> is invoked once when \<open>x\<close> and \<open>y\<close>
  are both true and not at all otherwise; for \<open>x or y or foo()\<close>, once when both are
  false and not at all otherwise.
\<close>

theorem C4_lazy_boolean_chain:
  "(hasattr (module ov) ''and_'' \<longrightarrow>
      lo_visit_expr ov (BoolOp And first rest) =
        Call (Attribute (Name (symbol_name ov) Load) ''and_'' Load)
          [lo_visit_expr ov first,
           Tuple (map (\<lambda>y. Lambda [] y) (lo_visit_exprs ov rest)) Load]) \<and>
   (hasattr (module ov) ''or_'' \<longrightarrow>
      lo_visit_expr ov (BoolOp Or first rest) =
        Call (Attribute (Name (symbol_name ov) Load) ''or_'' Load)
          [lo_visit_expr ov first,
           Tuple (map (\<lambda>y. Lambda [] y) (lo_visit_exprs ov rest)) Load]) \<and>
   length (lo_visit_exprs ov rest) = length rest \<and>
   snd (and_overload x (logged_from 0 rs) []) =
     (if truthy x then take (Suc (length (takeWhile goes_on_and rs))) [0 ..< length rs] else []) \<and>
   snd (or_overload x (logged_from 0 rs) []) =
     (if truthy x then [] else take (Suc (length (takeWhile goes_on_or rs))) [0 ..< length rs]) \<and>
   count_list (snd (and_overload x [logged 0 (Inr y), logged 1 foo] [])) 1 =
     (if truthy x \<and> truthy y then 1 else 0) \<and>
   count_list (snd (or_overload x [logged 0 (Inr y), logged 1 foo] [])) 1 =
     (if \<not> truthy x \<and> \<not> truthy y then 1 else 0)"
proof -
  have len: "length (lo_visit_exprs ov es) = length es" for es
    by (induction es) simp_all
  have a: "snd (and_overload x (logged_from 0 rs) []) =
     (if truthy x then take (Suc (length (takeWhile goes_on_and rs))) [0 ..< length rs] else [])"
    using and_loop_log [of 0 rs "[]"] by (simp add: and_overload_def)
  have b: "snd (or_overload x (logged_from 0 rs) []) =
     (if truthy x then [] else take (Suc (length (takeWhile goes_on_or rs))) [0 ..< length rs])"
    using or_loop_log [of 0 rs "[]"] by (simp add: or_overload_def)
  have c: "count_list (snd (and_overload x [logged 0 (Inr y), logged 1 foo] [])) 1 =
     (if truthy x \<and> truthy y then 1 else 0)"
    by (simp add: and_overload_def logged_def split: prod.splits sum.splits)
  have d: "count_list (snd (or_overload x [logged 0 (Inr y), logged 1 foo] [])) 1 =
     (if \<not> truthy x \<and> \<not> truthy y then 1 else 0)"
    by (simp add: or_overload_def logged_def split: prod.splits sum.splits)
  show ?thesis
    using len [of rest] a b c d
    by (simp add: handle_boolop_def overload_call_def make_lambda_nodes_def)
qed

theorem C4_lazy_boolean_chain_witness:
  "lo_visit_expr demo_overload
     (BoolOp And (Name ''x'' Load) [Name ''y'' Load, Call (Name ''foo'' Load) []]) =
     Call (Attribute (Name ''overload'' Load) ''and_'' Load)
       [Name ''x'' Load,
        Tuple [Lambda [] (Name ''y'' Load), Lambda [] (Call (Name ''foo'' Load) [])] Load] \<and>
   snd (and_overload (PyBool True) [logged 0 (Inr (PyBool True)), logged 1 (Inl (ValueError []))] [])
     = [0, 1] \<and>
   snd (and_overload (PyBool True) [logged 0 (Inr (PyBool False)), logged 1 (Inl (ValueError []))] [])
     = [0] \<and>
   snd (and_overload (PyBool False) [logged 0 (Inr (PyBool True)), logged 1 (Inl (ValueError []))] [])
     = []"
proof -
  have h: "hasattr (module demo_overload) ''and_''"
    by (simp add: demo_overload_def hasattr_def)
  have l: "[logged 0 (Inr v), logged 1 r] = logged_from 0 [Inr v, r]" for v r
    by simp
  show ?thesis
    using h
      C4_lazy_boolean_chain [of demo_overload "Name ''x'' Load"
        "[Name ''y'' Load, Call (Name ''foo'' Load) []]" "PyBool True"
        "[Inr (PyBool True), Inl (ValueError [])]"]
      C4_lazy_boolean_chain [of demo_overload "Name ''x'' Load"
        "[Name ''y'' Load, Call (Name ''foo'' Load) []]" "PyBool True"
        "[Inr (PyBool False), Inl (ValueError [])]"]
      C4_lazy_boolean_chain [of demo_overload "Name ''x'' Load"
        "[Name ''y'' Load, Call (Name ''foo'' Load) []]" "PyBool False"
        "[Inr (PyBool True), Inl (ValueError [])]"]
    unfolding l
    by (simp add: demo_overload_def goes_on_and_def upt_rec)
qed

section \<open>Properties of isolated execution\<close>





section \<open>Properties of closure re-attachment\<close>

lemma dict_of_lookup:
  "dict_of ps m k = (case map_of (rev ps) k of Some c \<Rightarrow> Some c | None \<Rightarrow> m k)"
proof (induction ps arbitrary: m)
  case Nil
  then show ?case by simp
next
  case (Cons p ps)
  obtain k' c where p: "p = (k', c)" by (cases p)
  have "dict_of (p # ps) m k = dict_of ps (m(k' \<mapsto> c)) k"
    by (simp add: p)
  also have "\<dots> = (case map_of (rev ps) k of Some c \<Rightarrow> Some c | None \<Rightarrow> (m(k' \<mapsto> c)) k)"
    by (rule Cons.IH)
  also have "\<dots> = (case map_of (rev (p # ps)) k of Some c \<Rightarrow> Some c | None \<Rightarrow> m k)"
    by (simp add: p map_add_def split: option.splits)
  finally show ?case .
qed

lemma dict_of_zip_distinct:
  assumes "distinct ks" "length ks = length cs"
  shows "dict_of (zip ks cs) Map.empty = map_of (zip ks cs)"
proof
  fix k
  have "distinct (map fst (zip ks cs))" using assms by simp
  then have "map_of (rev (zip ks cs)) = map_of (zip ks cs)"
    by (simp add: map_of_inject_set distinct_rev rev_map [symmetric])
  then show "dict_of (zip ks cs) Map.empty k = map_of (zip ks cs) k"
    by (simp add: dict_of_lookup split: option.splits)
qed

lemma lookup_all_total:
  "set ks \<subseteq> dom m \<Longrightarrow> lookup_all m ks = Inr (map (\<lambda>k. the (m k)) ks)"
  by (induction ks) (auto split: option.splits)

text \<open>
  Claim C9. For two function objects as the interpreter makes them,
  \<open>_attach_closure\<close> returns a function with the generated code whose closure has
  one cell for each free variable of the generated code, in the order of
  \<open>co_freevars\<close>: the cell of the original function for a name that is also a free
  variable of the original function, and the generated function's own cell otherwise.
\<close>

theorem C9_attach_closure:
  assumes "well_formed_func original_func" and "well_formed_func gen_func"
  shows "\<exists>f closure. attach_closure original_func gen_func = Inr f \<and>
     func_code f = func_code gen_func \<and>
     func_closure f = Some closure \<and>
     length closure = length (co_freevars (func_code gen_func)) \<and>
     (\<forall>i < length closure.
        closure ! i =
          (case map_of (zip (co_freevars (func_code original_func)) (closure_cells original_func))
                  (co_freevars (func_code gen_func) ! i) of
             Some c \<Rightarrow> c
           | None \<Rightarrow> closure_cells gen_func ! i))"
proof -
  let ?gf = "co_freevars (func_code gen_func)"
  let ?gc = "closure_cells gen_func"
  let ?of = "co_freevars (func_code original_func)"
  let ?oc = "closure_cells original_func"
  let ?m = "map_of (zip ?gf ?gc) ++ map_of (zip ?of ?oc)"
  from assms have len: "length ?gc = length ?gf" "length ?oc = length ?of"
    and dist: "distinct ?gf" "distinct ?of"
    by (simp_all add: well_formed_func_def)
  have gd: "dict_of (zip ?gf ?gc) Map.empty = map_of (zip ?gf ?gc)"
    using dist(1) len(1) by (simp add: dict_of_zip_distinct)
  have od: "dict_of (zip ?of ?oc) Map.empty = map_of (zip ?of ?oc)"
    using dist(2) len(2) by (simp add: dict_of_zip_distinct)
  have "set ?gf \<subseteq> dom ?m"
    using len(1) by (auto simp: dom_map_of_zip)
  then have look: "lookup_all ?m ?gf = Inr (map (\<lambda>k. the (?m k)) ?gf)"
    by (rule lookup_all_total)
  let ?closure = "map (\<lambda>k. the (?m k)) ?gf"
  let ?f = "\<lparr>func_code = func_code gen_func, func_closure = Some ?closure,
             func_globals = func_globals original_func,
             func_defaults = func_defaults original_func\<rparr>"
  have res: "attach_closure original_func gen_func = Inr ?f"
    using gd od look
    by (simp add: attach_closure_def closure_cells_def FunctionType_def Let_def)
  have nth: "?closure ! i =
      (case map_of (zip ?of ?oc) (?gf ! i) of Some c \<Rightarrow> c | None \<Rightarrow> ?gc ! i)"
    if "i < length ?closure" for i
  proof -
    from that have i: "i < length ?gf" by simp
    have "map_of (zip ?gf ?gc) (?gf ! i) = Some (?gc ! i)"
      using i len(1) dist(1) by (simp add: map_of_zip_nth)
    with i show ?thesis
      by (simp add: map_add_def split: option.splits)
  qed
  from res nth show ?thesis by auto
qed

theorem C9_attach_closure_witness:
  "\<exists>f. attach_closure
      \<lparr>func_code = \<lparr>co_name = ''f'', co_freevars = [''a'', ''b'']\<rparr>,
       func_closure = Some [10, 11], func_globals = Map.empty, func_defaults = None\<rparr>
      \<lparr>func_code = \<lparr>co_name = ''f'', co_freevars = [''a'', ''b'', ''overload'']\<rparr>,
       func_closure = Some [20, 21, 22], func_globals = Map.empty, func_defaults = None\<rparr>
     = Inr f \<and> func_closure f = Some [10, 11, 22]"
proof -
  let ?orig = "\<lparr>func_code = \<lparr>co_name = ''f'', co_freevars = [''a'', ''b'']\<rparr>,
       func_closure = Some [10, 11], func_globals = Map.empty, func_defaults = None\<rparr>"
  let ?gen = "\<lparr>func_code = \<lparr>co_name = ''f'', co_freevars = [''a'', ''b'', ''overload'']\<rparr>,
       func_closure = Some [20, 21, 22], func_globals = Map.empty, func_defaults = None\<rparr>"
  have wf: "well_formed_func ?orig" "well_formed_func ?gen"
    by (simp_all add: well_formed_func_def closure_cells_def)
  from C9_attach_closure [OF wf] obtain f closure where
    f: "attach_closure ?orig ?gen = Inr f" and c: "func_closure f = Some closure"
    and len: "length closure = 3"
    and nth: "\<forall>i < length closure. closure ! i =
          (case map_of (zip [''a'', ''b''] [10, 11]) ([''a'', ''b'', ''overload''] ! i) of
             Some c \<Rightarrow> c | None \<Rightarrow> [20, 21, 22] ! i)"
    by (auto simp: closure_cells_def)
  from len nth have "closure ! 0 = 10" "closure ! 1 = 11" "closure ! 2 = 22"
    by (simp_all add: numeral_2_eq_2)
  with len have "closure = [10, 11, 22]"
    by (intro nth_equalityI) (auto simp: less_Suc_eq numeral_3_eq_3 numeral_2_eq_2)
  with f c show ?thesis by blast
qed

section \<open>Properties of the control-flow pass\<close>




section \<open>Properties of the variables pass\<close>

lemma fails_Inl [simp]: "fails (Inl e)"
  by (simp add: fails_def)

lemma fails_Inr [simp]: "\<not> fails (Inr x)"
  by (simp add: fails_def)











lemma sc_visit_For_bad_target:
  "for_targets target = Inl e \<Longrightarrow>
   sc_visit st (For target iter body orelse bm om) = Inl (AttributeError ''id'')"
  by (cases target) simp_all

lemma get_ids_names: "get_ids (map (\<lambda>i. Name i c) is) = Inr is"
  by (induction "is") simp_all

lemma for_elts_check_names: "\<exists>st'. for_elts_check st c (map (\<lambda>i. Name i c') is) = Inr st'"
  by (induction "is" arbitrary: st) simp_all


end
